theory Spec2Isabelle
  imports Complex_Main "HOL-Library.Word"
begin

unbundle bit_operations_syntax

section \<open>The envelope layer of the Cosori kettle BLE component\<close>

text \<open>
  This theory embeds \<^verbatim>\<open>components/cosori_kettle_ble/envelope.h\<close> and
  \<^verbatim>\<open>envelope.cpp\<close>: the class \<^verbatim>\<open>Envelope\<close> with its three static functions
  \<^verbatim>\<open>build\<close>, \<^verbatim>\<open>chunk\<close> and \<^verbatim>\<open>calculate_checksum\<close>.

  \<^item> \<^verbatim>\<open>uint8_t\<close> and \<^verbatim>\<open>uint16_t\<close> are words of 8 and 16 bits.
  \<^item> \<^verbatim>\<open>size_t\<close> is \<open>nat\<close>. Its width depends on the target (32 bits on the ESP32);
    no operation of the source on a \<^verbatim>\<open>size_t\<close> can wrap for a vector or buffer that
    exists in memory, and every narrowing of a \<^verbatim>\<open>size_t\<close> to 8 or 16 bits is written
    out (\<open>word_of_nat\<close> reduces modulo \<open>2 ^ 8\<close> and \<open>2 ^ 16\<close>).
  \<^item> \<^verbatim>\<open>std::vector<uint8_t>\<close> is a list of bytes.
  \<^item> The pair \<^verbatim>\<open>(const uint8_t *payload, size_t payload_len)\<close> is an optional list and
    a \<open>nat\<close>: \<open>None\<close> is \<^verbatim>\<open>nullptr\<close>, and \<open>Some mem\<close> is a pointer to the bytes
    \<open>mem\<close>. The range \<^verbatim>\<open>[payload, payload + payload_len)\<close> is \<open>take payload_len mem\<close>;
    the source reads past the buffer when \<open>length mem < payload_len\<close> (undefined
    behaviour), so the results below about payload bytes are stated with
    \<open>payload_len = length mem\<close>.
\<close>

type_synonym uint8_t = "8 word"
type_synonym uint16_t = "16 word"

subsection \<open>Constants\<close>

text \<open>\<^verbatim>\<open>static constexpr size_t BLE_CHUNK_SIZE = 20;\<close> (envelope.h)\<close>

definition BLE_CHUNK_SIZE :: nat where
  "BLE_CHUNK_SIZE = 20"

text \<open>\<^verbatim>\<open>static constexpr uint8_t FRAME_MAGIC = 0xA5;\<close> (envelope.cpp)\<close>

definition FRAME_MAGIC :: uint8_t where
  "FRAME_MAGIC = 0xA5"

subsection \<open>\<^verbatim>\<open>Envelope::calculate_checksum\<close>\<close>

text \<open>
  \<^verbatim>\<open>return (FRAME_MAGIC + frame_type + seq + (payload_len & 0xFF)
             + ((payload_len >> 8) & 0xFF)) & 0xFF;\<close>

  The operands are promoted to \<^verbatim>\<open>int\<close>; the sum is at most \<open>5 * 255\<close>, so the
  \<^verbatim>\<open>int\<close> arithmetic cannot overflow and is modelled on \<open>int\<close>. The result is
  narrowed to \<^verbatim>\<open>uint8_t\<close> by the return.
\<close>

definition calculate_checksum :: "uint8_t \<Rightarrow> uint8_t \<Rightarrow> uint16_t \<Rightarrow> uint8_t" where
  "calculate_checksum frame_type seq payload_len =
     word_of_int
       ((uint FRAME_MAGIC + uint frame_type + uint seq
          + (uint payload_len AND 0xFF)
          + (drop_bit 8 (uint payload_len) AND 0xFF)) AND 0xFF)"

subsection \<open>\<^verbatim>\<open>Envelope::build\<close>\<close>

text \<open>
  The six \<^verbatim>\<open>push_back\<close> calls write the header; \<^verbatim>\<open>push_back\<close> narrows its
  \<^verbatim>\<open>size_t\<close> argument to \<^verbatim>\<open>uint8_t\<close>, and the call of \<^verbatim>\<open>calculate_checksum\<close>
  narrows \<^verbatim>\<open>payload_len\<close> to \<^verbatim>\<open>uint16_t\<close>. The payload is appended only under
  \<^verbatim>\<open>payload != nullptr && payload_len > 0\<close>. \<^verbatim>\<open>reserve\<close> changes the capacity only.
\<close>

definition build :: "uint8_t \<Rightarrow> uint8_t \<Rightarrow> uint8_t list option \<Rightarrow> nat \<Rightarrow> uint8_t list" where
  "build frame_type seq payload payload_len =
     [FRAME_MAGIC,
      frame_type,
      seq,
      word_of_nat (payload_len AND 0xFF),
      word_of_nat (drop_bit 8 payload_len AND 0xFF),
      calculate_checksum frame_type seq (word_of_nat payload_len)]
     @ (case payload of
          None \<Rightarrow> []
        | Some mem \<Rightarrow> if 0 < payload_len then take payload_len mem else [])"

subsection \<open>\<^verbatim>\<open>Envelope::chunk\<close>\<close>

text \<open>
  The \<^verbatim>\<open>for\<close> loop over \<^verbatim>\<open>i\<close>, with the vector \<^verbatim>\<open>chunks\<close> as accumulator.
  The slice \<^verbatim>\<open>(packet.begin() + i, packet.begin() + i + chunk_size)\<close> is
  \<open>take chunk_size (drop i packet)\<close>. The sum \<^verbatim>\<open>i + BLE_CHUNK_SIZE\<close> stays below
  the range of \<^verbatim>\<open>size_t\<close>, since \<^verbatim>\<open>i < packet.size()\<close> and a vector has at most
  \<^verbatim>\<open>max_size()\<close> elements. The loop ends because \<open>length packet - i\<close> decreases.
\<close>

function chunk_loop :: "uint8_t list \<Rightarrow> nat \<Rightarrow> uint8_t list list \<Rightarrow> uint8_t list list" where
  "chunk_loop packet i chunks =
     (if i < length packet then
        (let chunk_size =
               (if i + BLE_CHUNK_SIZE \<le> length packet then BLE_CHUNK_SIZE
                else length packet - i);
             chunk = take chunk_size (drop i packet)
         in chunk_loop packet (i + BLE_CHUNK_SIZE) (chunks @ [chunk]))
      else chunks)"
  by pat_completeness auto
termination
  by (relation "measure (\<lambda>(packet, i, chunks). length packet - i)")
     (auto simp: BLE_CHUNK_SIZE_def)

declare chunk_loop.simps [simp del]

definition chunk :: "uint8_t list \<Rightarrow> uint8_t list list" where
  "chunk packet = (if packet = [] then [] else chunk_loop packet 0 [])"

subsection \<open>Reading a frame\<close>

text \<open>
  The wire format of the header is
  \<^verbatim>\<open>[magic][frame_type][seq][len_lo][len_hi][checksum]\<close>. The two functions below read
  the little-endian length field and the bytes after the header of a byte sequence;
  they are the observations the properties of \<open>build\<close> are stated with.
\<close>

definition length_field :: "uint8_t list \<Rightarrow> nat" where
  "length_field packet = unat (packet ! 3) + 256 * unat (packet ! 4)"

definition payload_bytes :: "uint8_t list \<Rightarrow> uint8_t list" where
  "payload_bytes packet = drop 6 packet"

text \<open>
  The additive checksum in the words of the specification: the sum of a sequence of
  bytes modulo 256 (addition on \<open>8 word\<close> wraps).
\<close>

definition additive_sum :: "uint8_t list \<Rightarrow> uint8_t" where
  "additive_sum bytes = foldr (+) bytes 0"

subsection \<open>Sample inputs\<close>

text \<open>
  The payload of the captured frame \<^verbatim>\<open>A522 1C05 00CD 01F3 A300 B3\<close> ("set mytemp to
  179") of the protocol notes: frame type \<open>0x22\<close>, sequence \<open>0x1C\<close>, length 5.
\<close>

definition sample_payload :: "uint8_t list" where
  "sample_payload = [0x01, 0xF3, 0xA3, 0x00, 0xB3]"

text \<open>A packet of 25 bytes, longer than one chunk.\<close>

definition bytes_1_to_25 :: "uint8_t list" where
  "bytes_1_to_25 = [1, 2, 3, 4, 5, 6, 7, 8, 9, 10, 11, 12, 13, 14, 15, 16, 17, 18, 19, 20,
                    21, 22, 23, 24, 25]"

section \<open>Auxiliary facts\<close>

subsection \<open>Narrowing to bytes\<close>

text \<open>Masking an \<^verbatim>\<open>int\<close> or a \<^verbatim>\<open>size_t\<close> with \<^verbatim>\<open>0xFF\<close> keeps its low 8 bits.\<close>

lemma int_and_0xFF: "(x::int) AND 0xFF = take_bit 8 x"
  by (simp add: take_bit_eq_mask mask_eq_exp_minus_1)

lemma nat_and_0xFF: "(n::nat) AND 0xFF = n mod 256"
proof -
  have "n AND 0xFF = take_bit 8 n"
    by (simp add: take_bit_eq_mask mask_eq_exp_minus_1)
  then show ?thesis by (simp add: take_bit_eq_mod)
qed

lemma narrow_and_0xFF: "(word_of_int ((x::int) AND 0xFF) :: 8 word) = word_of_int x"
  unfolding int_and_0xFF by (rule bit_word_eqI) (simp add: bit_simps)

lemma narrow_len_lo: "(word_of_int (uint (n::16 word) AND 0xFF) :: 8 word) = ucast n"
  unfolding narrow_and_0xFF by simp

lemma narrow_len_hi:
  "(word_of_int (drop_bit 8 (uint (n::16 word)) AND 0xFF) :: 8 word) = ucast (drop_bit 8 n)"
  unfolding narrow_and_0xFF by (rule bit_word_eqI) (simp add: bit_simps)

text \<open>The checksum is the sum of the five header bytes before it, in 8-bit arithmetic.\<close>

lemma calculate_checksum_word:
  "calculate_checksum frame_type seq payload_len =
     FRAME_MAGIC + frame_type + seq + ucast payload_len + ucast (drop_bit 8 payload_len)"
  unfolding calculate_checksum_def narrow_and_0xFF
  by (simp add: narrow_len_lo narrow_len_hi)

lemma unat_len_lo: "unat (word_of_nat (n AND 0xFF) :: 8 word) = n mod 256"
  by (simp add: nat_and_0xFF unat_of_nat)

lemma unat_len_hi: "unat (word_of_nat (drop_bit 8 n AND 0xFF) :: 8 word) = n div 256 mod 256"
  by (simp add: nat_and_0xFF unat_of_nat drop_bit_eq_div)

text \<open>The low and the high byte of the length, read back little-endian.\<close>

lemma le16: "(n::nat) mod 256 + 256 * (n div 256 mod 256) = n mod 65536"
proof -
  have "n mod (256 * 256) = 256 * (n div 256 mod 256) + n mod 256"
    by (rule mod_mult2_eq)
  then show ?thesis by simp
qed

lemma word16_mod: "(word_of_nat (n mod 65536) :: 16 word) = word_of_nat n"
  by (simp add: word_of_nat_eq_iff take_bit_eq_mod)

lemma additive_sum5: "additive_sum [a, b, c, d, e] = a + b + c + d + e"
  by (simp add: additive_sum_def add.assoc)

lemma nat_and_0xFF_take_bit: "(n::nat) AND 0xFF = take_bit 8 n"
  by (simp add: take_bit_eq_mask mask_eq_exp_minus_1)

lemma ucast_len_lo: "(ucast (word_of_nat n :: 16 word) :: 8 word) = word_of_nat (n AND 0xFF)"
  by (rule bit_word_eqI) (simp add: bit_simps nat_and_0xFF_take_bit)

lemma ucast_len_hi:
  "(ucast (drop_bit 8 (word_of_nat n :: 16 word)) :: 8 word) = word_of_nat (drop_bit 8 n AND 0xFF)"
  by (rule bit_word_eqI) (simp add: bit_simps nat_and_0xFF_take_bit)

subsection \<open>The header that \<open>build\<close> writes\<close>

lemma build_checksum_byte:
  "build frame_type seq payload payload_len ! 5 =
     calculate_checksum frame_type seq (word_of_nat payload_len)"
  by (simp add: build_def)

lemma build_take5:
  "take 5 (build frame_type seq payload payload_len) =
     [FRAME_MAGIC, frame_type, seq, word_of_nat (payload_len AND 0xFF),
      word_of_nat (drop_bit 8 payload_len AND 0xFF)]"
  by (simp add: build_def)

lemma build_take6:
  "take 6 (build frame_type seq payload payload_len) =
     [FRAME_MAGIC, frame_type, seq, word_of_nat (payload_len AND 0xFF),
      word_of_nat (drop_bit 8 payload_len AND 0xFF),
      calculate_checksum frame_type seq (word_of_nat payload_len)]"
  by (simp add: build_def)

lemma build_Some:
  "build frame_type seq (Some p) (length p) =
     [FRAME_MAGIC, frame_type, seq, word_of_nat (length p AND 0xFF),
      word_of_nat (drop_bit 8 (length p) AND 0xFF),
      calculate_checksum frame_type seq (word_of_nat (length p))] @ p"
  by (simp add: build_def)

lemma build_None:
  "build frame_type seq None payload_len =
     [FRAME_MAGIC, frame_type, seq, word_of_nat (payload_len AND 0xFF),
      word_of_nat (drop_bit 8 payload_len AND 0xFF),
      calculate_checksum frame_type seq (word_of_nat payload_len)]"
  by (simp add: build_def)

lemma payload_bytes_build_Some:
  "payload_bytes (build frame_type seq (Some p) (length p)) = p"
  by (simp add: payload_bytes_def build_Some)

lemma payload_bytes_build_None:
  "payload_bytes (build frame_type seq None payload_len) = []"
  by (simp add: payload_bytes_def build_None)

text \<open>The length field of a built frame is \<^verbatim>\<open>payload_len\<close> narrowed to 16 bits.\<close>

lemma length_field_build:
  "length_field (build frame_type seq payload payload_len) = payload_len mod 65536"
  unfolding length_field_def build_def
  by (simp add: unat_len_lo unat_len_hi le16 drop_bit_eq_div)

lemma build_checksum_header_sum:
  "build frame_type seq payload payload_len ! 5 =
     additive_sum (take 5 (build frame_type seq payload payload_len))"
  by (simp only: build_checksum_byte build_take5 additive_sum5 calculate_checksum_word
        ucast_len_lo ucast_len_hi)

lemma build_nth_0: "build frame_type seq payload payload_len ! 0 = FRAME_MAGIC"
  by (simp add: build_def)

lemma build_nth_1: "build frame_type seq payload payload_len ! 1 = frame_type"
  by (simp add: build_def)

lemma build_nth_2: "build frame_type seq payload payload_len ! 2 = seq"
  by (simp add: build_def)

subsection \<open>The loop of \<^verbatim>\<open>chunk\<close>\<close>

lemma slice_step:
  assumes "i < length packet"
  shows "take (if i + BLE_CHUNK_SIZE \<le> length packet then BLE_CHUNK_SIZE else length packet - i)
           (drop i packet) @ drop (i + BLE_CHUNK_SIZE) packet = drop i packet"
proof (cases "i + BLE_CHUNK_SIZE \<le> length packet")
  case True
  then show ?thesis
    using append_take_drop_id [of BLE_CHUNK_SIZE "drop i packet"]
    by (simp add: add.commute)
next
  case False
  then show ?thesis by simp
qed

lemma chunk_loop_step:
  "i < length packet \<Longrightarrow>
   chunk_loop packet i chunks =
     chunk_loop packet (i + BLE_CHUNK_SIZE)
       (chunks @ [take (if i + BLE_CHUNK_SIZE \<le> length packet then BLE_CHUNK_SIZE
                        else length packet - i) (drop i packet)])"
  by (subst chunk_loop.simps) (simp add: Let_def)

lemma chunk_loop_exit: "\<not> i < length packet \<Longrightarrow> chunk_loop packet i chunks = chunks"
  by (subst chunk_loop.simps) simp

lemma chunk_loop_concat:
  "concat (chunk_loop packet i chunks) = concat chunks @ drop i packet"
proof (induction packet i chunks rule: chunk_loop.induct)
  case (1 packet i chunks)
  show ?case
  proof (cases "i < length packet")
    case True
    have "concat (chunk_loop packet i chunks) = concat chunks @
         (take (if i + BLE_CHUNK_SIZE \<le> length packet then BLE_CHUNK_SIZE else length packet - i)
           (drop i packet) @ drop (i + BLE_CHUNK_SIZE) packet)"
      using 1 [OF True refl refl] by (simp add: chunk_loop_step [OF True])
    also have "\<dots> = concat chunks @ drop i packet"
      by (simp only: slice_step [OF True])
    finally show ?thesis .
  next
    case False
    then show ?thesis by (simp add: chunk_loop_exit)
  qed
qed

lemma ceil_step:
  assumes "i < (L::nat)"
  shows "Suc ((L - (i + 20) + 19) div 20) = (L - i + 19) div 20"
proof (cases "i + 20 \<le> L")
  case True
  then obtain k where L: "L = (i + 20) + k" by (auto simp: le_iff_add)
  have "Suc ((k + 19) div 20) = (k + 19 + 20) div 20"
    by (simp only: div_add_self2 zero_less_numeral)
  then show ?thesis unfolding L by (simp add: add.commute add.left_commute)
next
  case False
  with assms obtain d where L: "L = i + d" and d: "0 < d" "d < 20"
    by (metis add_less_cancel_left less_imp_add_positive not_le)
  from d have "20 * 1 \<le> d + 19" and "d + 19 < 20 * Suc 1" by simp_all
  then have "(d + 19) div 20 = 1" by (rule div_nat_eqI)
  with d show ?thesis unfolding L by simp
qed

lemma ceil20: "\<lceil>real n / 20\<rceil> = int ((n + 19) div 20)"
proof -
  have "n + 19 = 20 * ((n + 19) div 20) + (n + 19) mod 20" by simp
  moreover have "(n + 19) mod 20 < 20" by simp
  ultimately have lo: "20 * ((n + 19) div 20) < n + 20" and hi: "n \<le> 20 * ((n + 19) div 20)"
    by linarith+
  show ?thesis
  proof (rule ceiling_unique)
    have "real (20 * ((n + 19) div 20)) < real (n + 20)" using lo by (simp only: of_nat_less_iff)
    then show "real_of_int (int ((n + 19) div 20)) - 1 < real n / 20" by simp
    have "real n \<le> real (20 * ((n + 19) div 20))" using hi by (simp only: of_nat_le_iff)
    then show "real n / 20 \<le> real_of_int (int ((n + 19) div 20))" by simp
  qed
qed

lemma chunk_loop_length:
  "length (chunk_loop packet i chunks) = length chunks + (length packet - i + 19) div 20"
proof (induction packet i chunks rule: chunk_loop.induct)
  case (1 packet i chunks)
  show ?case
  proof (cases "i < length packet")
    case True
    have "length (chunk_loop packet i chunks) =
          length chunks + Suc ((length packet - (i + 20) + 19) div 20)"
      using 1 [OF True refl refl] by (simp add: chunk_loop_step [OF True] BLE_CHUNK_SIZE_def)
    then show ?thesis by (simp only: ceil_step [OF True])
  next
    case False
    then have "length packet - i = 0" by simp
    then show ?thesis by (simp add: chunk_loop_exit [OF False])
  qed
qed

lemma chunk_loop_slices:
  "s \<in> set (chunk_loop packet i chunks) \<Longrightarrow>
     s \<in> set chunks \<or> (s \<noteq> [] \<and> length s \<le> BLE_CHUNK_SIZE)"
proof (induction packet i chunks rule: chunk_loop.induct)
  case (1 packet i chunks)
  show ?case
  proof (cases "i < length packet")
    case True
    let ?c = "take (if i + BLE_CHUNK_SIZE \<le> length packet then BLE_CHUNK_SIZE
                        else length packet - i) (drop i packet)"
    have "s \<in> set (chunk_loop packet (i + BLE_CHUNK_SIZE) (chunks @ [?c]))"
      using "1.prems" by (simp add: chunk_loop_step [OF True])
    then have "s \<in> set (chunks @ [?c]) \<or> (s \<noteq> [] \<and> length s \<le> BLE_CHUNK_SIZE)"
      by (rule "1.IH" [OF True refl refl])
    moreover have "?c \<noteq> []" using True by (simp add: BLE_CHUNK_SIZE_def)
    moreover have "length ?c \<le> BLE_CHUNK_SIZE" by auto
    ultimately show ?thesis by auto
  next
    case False
    with "1.prems" show ?thesis by (simp add: chunk_loop_exit)
  qed
qed

lemma chunk_concat: "concat (chunk packet) = packet"
  by (simp add: chunk_def chunk_loop_concat)

lemma chunk_length: "length (chunk packet) = (length packet + 19) div 20"
  by (simp add: chunk_def chunk_loop_length)

lemma chunk_slices:
  "s \<in> set (chunk packet) \<Longrightarrow> s \<noteq> [] \<and> length s \<le> BLE_CHUNK_SIZE"
  using chunk_loop_slices [of s packet 0 "[]"] by (simp add: chunk_def split: if_splits)

lemma chunk_bytes_1_to_25:
  "chunk bytes_1_to_25 =
     [[1, 2, 3, 4, 5, 6, 7, 8, 9, 10, 11, 12, 13, 14, 15, 16, 17, 18, 19, 20],
      [21, 22, 23, 24, 25]]"
  by (simp add: chunk_def bytes_1_to_25_def chunk_loop.simps BLE_CHUNK_SIZE_def)

section \<open>The checksum\<close>

text \<open>
  Claim C1, as stated: for the documented sample frame \<^verbatim>\<open>A5 22 1C 05 00 CD\<close> (frame type
  \<open>0x22\<close>, sequence \<open>0x1C\<close>, length 5), \<open>calculate_checksum\<close> produces the checksum
  byte \<open>0xCD\<close>. It does not: the function adds the five header bytes, and
  \<open>0xA5 + 0x22 + 0x1C + 0x05 + 0x00 = 0xE8\<close>.
\<close>

theorem calculate_checksum_sample_not_0xCD:
  "calculate_checksum 0x22 0x1C 5 \<noteq> 0xCD"
  by (simp add: calculate_checksum_def FRAME_MAGIC_def)

text \<open>
  Claim C1, amended: for frame type \<open>0x22\<close>, sequence \<open>0x1C\<close> and length 5,
  \<open>calculate_checksum\<close> produces the byte \<open>0xE8\<close>, the sum of the header bytes
  \<^verbatim>\<open>A5 22 1C 05 00\<close> modulo 256.
\<close>

theorem calculate_checksum_sample:
  "calculate_checksum 0x22 0x1C 5 = 0xE8"
  by (simp add: calculate_checksum_def FRAME_MAGIC_def)

text \<open>
  Claim C2, as stated: the checksum equals the additive sum of all header and payload
  bytes modulo 256, so that it depends on the payload bytes. For the sample frame built
  with its payload \<^verbatim>\<open>01 F3 A3 00 B3\<close> the checksum byte is not the sum over the header
  bytes and the payload (which is \<open>0x32\<close>), and it is the same byte as for a payload
  of five zero bytes.
\<close>

theorem checksum_not_sum_over_payload:
  "build 0x22 0x1C (Some sample_payload) 5 ! 5
     \<noteq> additive_sum (take 5 (build 0x22 0x1C (Some sample_payload) 5) @ sample_payload)
   \<and> build 0x22 0x1C (Some sample_payload) 5 ! 5
     = build 0x22 0x1C (Some [0, 0, 0, 0, 0]) 5 ! 5"
  by (simp add: build_def sample_payload_def additive_sum_def calculate_checksum_def FRAME_MAGIC_def)

text \<open>
  Claim C2, amended: \<open>calculate_checksum\<close> equals the additive sum modulo 256 of the five
  header bytes before the checksum (magic, frame type, sequence, low and high byte of the
  length), and the checksum byte of every built frame is that sum over the first five
  bytes of the frame. The payload enters through its length only.
\<close>

theorem checksum_is_header_sum:
  "calculate_checksum frame_type seq payload_len =
     additive_sum [FRAME_MAGIC, frame_type, seq, ucast payload_len, ucast (drop_bit 8 payload_len)]
   \<and> build frame_type seq payload n ! 5 = additive_sum (take 5 (build frame_type seq payload n))"
  by (simp only: additive_sum5 calculate_checksum_word build_checksum_header_sum)

text \<open>
  Claim C6: every frame that \<open>build\<close> returns starts with the magic byte and carries at
  index 5 the checksum function applied to the header fields of that frame (its frame
  type at index 1, its sequence at index 2 and its 16-bit length field); and two builds
  with the same frame type, sequence and payload length have the same 6-byte header,
  whatever the payload bytes are.
\<close>

theorem build_frame_invariant:
  "build frame_type seq payload payload_len ! 0 = FRAME_MAGIC
   \<and> build frame_type seq payload payload_len ! 5 =
       calculate_checksum (build frame_type seq payload payload_len ! 1)
         (build frame_type seq payload payload_len ! 2)
         (word_of_nat (length_field (build frame_type seq payload payload_len)))
   \<and> (length p = length q \<longrightarrow>
        take 6 (build frame_type seq (Some p) (length p)) =
        take 6 (build frame_type seq (Some q) (length q)))"
proof (intro conjI impI)
  show "build frame_type seq payload payload_len ! 0 = FRAME_MAGIC"
    by (rule build_nth_0)
  show "build frame_type seq payload payload_len ! 5 =
       calculate_checksum (build frame_type seq payload payload_len ! 1)
         (build frame_type seq payload payload_len ! 2)
         (word_of_nat (length_field (build frame_type seq payload payload_len)))"
    by (simp only: build_nth_1 build_nth_2 build_checksum_byte length_field_build word16_mod)
  assume "length p = length q"
  then show "take 6 (build frame_type seq (Some p) (length p)) =
        take 6 (build frame_type seq (Some q) (length q))"
    by (simp only: build_take6)
qed

text \<open>
  Two different payloads of three bytes, with frame type \<open>0x22\<close> and sequence
  \<open>0x1C\<close>: both frames have the header \<^verbatim>\<open>A5 22 1C 03 00 E6\<close>.
\<close>

theorem build_frame_invariant_witness:
  "length [1, 2, 3 :: uint8_t] = length [7, 8, 9 :: uint8_t]
   \<and> [1, 2, 3 :: uint8_t] \<noteq> [7, 8, 9]
   \<and> take 6 (build 0x22 0x1C (Some [1, 2, 3]) 3) = take 6 (build 0x22 0x1C (Some [7, 8, 9]) 3)
   \<and> take 6 (build 0x22 0x1C (Some [1, 2, 3]) 3) = [0xA5, 0x22, 0x1C, 0x03, 0x00, 0xE6]"
proof -
  have l: "length [1, 2, 3 :: uint8_t] = 3" "length [7, 8, 9 :: uint8_t] = 3"
    by simp_all
  have "take 6 (build 0x22 0x1C (Some [1, 2, 3]) 3) = [0xA5, 0x22, 0x1C, 0x03, 0x00, 0xE6]"
    by (simp add: build_def calculate_checksum_def FRAME_MAGIC_def)
  with build_frame_invariant
         [of "0x22" "0x1C" "Some [1, 2, 3]" 3 "[1, 2, 3]" "[7, 8, 9]", unfolded l]
  show ?thesis by simp
qed

section \<open>Building a frame\<close>

text \<open>
  Claim C4: for every frame type, sequence and payload, \<open>build\<close> returns the 6-byte
  header \<^verbatim>\<open>[0xA5][frame_type][seq][len_lo][len_hi][checksum]\<close>, the low byte of the
  length before the high byte, followed by the payload bytes in order. The empty payload
  passed as \<^verbatim>\<open>(nullptr, 0)\<close> gives the header alone.
\<close>

theorem build_layout:
  "build frame_type seq (Some p) (length p) =
     [0xA5, frame_type, seq,
      word_of_nat (length p mod 256), word_of_nat (length p div 256 mod 256),
      calculate_checksum frame_type seq (word_of_nat (length p))] @ p
   \<and> build frame_type seq None 0 =
     [0xA5, frame_type, seq, 0, 0, calculate_checksum frame_type seq 0]"
  by (simp add: build_Some build_None nat_and_0xFF drop_bit_eq_div FRAME_MAGIC_def)

text \<open>
  Claim C3, as stated: the length field of the returned frame equals the payload size for
  every payload, and \<open>build\<close> fails with \<^verbatim>\<open>InvalidPayload\<close> on a payload over the
  protocol's maximum length. \<open>build\<close> has no failure: its result is a byte vector for
  every input. For a payload of 65536 bytes, more than the 16-bit length field can
  record, it returns a frame with the whole payload and the length field 0.
\<close>

theorem build_oversized_not_rejected:
  "length (replicate 65536 (0::uint8_t)) = 65536
   \<and> length_field (build 0x22 0x1C (Some (replicate 65536 0)) 65536) = 0
   \<and> payload_bytes (build 0x22 0x1C (Some (replicate 65536 0)) 65536) = replicate 65536 0"
  by (simp add: length_field_build payload_bytes_build_Some [of _ _ "replicate 65536 0", simplified])

text \<open>
  Claim C3, amended: \<open>build\<close> returns a frame for every payload (it has no
  \<^verbatim>\<open>InvalidPayload\<close> failure), the bytes after the header being the payload; and for
  every payload of fewer than \<open>2 ^ 16\<close> bytes the length field of the returned frame
  equals the payload size exactly.
\<close>

theorem build_length_field_exact:
  "payload_bytes (build frame_type seq (Some p) (length p)) = p
   \<and> (length p < 65536 \<longrightarrow> length_field (build frame_type seq (Some p) (length p)) = length p)"
  by (simp add: payload_bytes_build_Some length_field_build)

text \<open>The sample payload of five bytes: the length field of its frame is 5.\<close>

theorem build_length_field_exact_witness:
  "payload_bytes (build 0x22 0x1C (Some sample_payload) (length sample_payload)) = sample_payload
   \<and> length sample_payload < 65536
   \<and> length_field (build 0x22 0x1C (Some sample_payload) (length sample_payload)) = 5"
  using build_length_field_exact [of "0x22" "0x1C" sample_payload]
  by (simp add: sample_payload_def)

text \<open>
  Claim C9: for every payload of at least \<open>2 ^ 16\<close> bytes, the little-endian length
  field of the returned frame is the payload length modulo 65536, the checksum byte is
  computed over that truncated 16-bit length, and the frame is returned with the whole
  payload (nothing is rejected).
\<close>

theorem build_truncates_length:
  assumes "65536 \<le> length p"
  shows "length_field (build frame_type seq (Some p) (length p)) = length p mod 65536
       \<and> build frame_type seq (Some p) (length p) ! 5 =
           calculate_checksum frame_type seq (word_of_nat (length p mod 65536))
       \<and> payload_bytes (build frame_type seq (Some p) (length p)) = p"
  by (simp only: length_field_build build_checksum_byte word16_mod payload_bytes_build_Some
        simp_thms)

text \<open>
  A payload of 65541 zero bytes: the length field is 5, and the checksum is that of a
  frame of length 5.
\<close>

theorem build_truncates_length_witness:
  "65536 \<le> length (replicate 65541 (0::uint8_t))
   \<and> length_field (build 0x22 0x1C (Some (replicate 65541 0)) 65541) = 5
   \<and> build 0x22 0x1C (Some (replicate 65541 0)) 65541 ! 5 = calculate_checksum 0x22 0x1C 5
   \<and> payload_bytes (build 0x22 0x1C (Some (replicate 65541 0)) 65541) = replicate 65541 0"
proof -
  have h: "65536 \<le> length (replicate 65541 (0::uint8_t))" by simp
  have l: "length (replicate 65541 (0::uint8_t)) = 65541" by simp
  have m: "(65541::nat) mod 65536 = 5" by simp
  from h build_truncates_length [OF h, of "0x22" "0x1C", unfolded l m] show ?thesis
    by (simp only: simp_thms of_nat_numeral)
qed

text \<open>
  Claim C8, as stated: for every call with a null payload pointer and a nonzero
  \<^verbatim>\<open>payload_len\<close>, the frame is the header alone while its length field records
  \<^verbatim>\<open>payload_len\<close>, so the frame violates \<^verbatim>\<open>length == payload.size()\<close>. For
  \<^verbatim>\<open>payload_len = 65536\<close> the length field is 0 and no payload byte follows the header:
  the two agree.
\<close>

theorem build_null_payload_65536:
  "length_field (build 0x22 0x1C None 65536) = length (payload_bytes (build 0x22 0x1C None 65536))"
  by (simp add: length_field_build payload_bytes_build_None)

text \<open>
  Claim C8, amended: for every call with a null payload pointer and a nonzero
  \<^verbatim>\<open>payload_len\<close>, the returned frame is the 6-byte header alone, with no payload byte
  appended, while its length field records \<^verbatim>\<open>payload_len\<close> modulo 65536; the frame
  violates \<^verbatim>\<open>length == payload.size()\<close> whenever \<^verbatim>\<open>payload_len\<close> is not a multiple of
  65536, in particular for every \<^verbatim>\<open>payload_len\<close> from 1 to 65535.
\<close>

theorem build_null_payload:
  assumes "0 < payload_len"
  shows "length (build frame_type seq None payload_len) = 6
       \<and> payload_bytes (build frame_type seq None payload_len) = []
       \<and> length_field (build frame_type seq None payload_len) = payload_len mod 65536
       \<and> (payload_len mod 65536 \<noteq> 0 \<longrightarrow>
            length_field (build frame_type seq None payload_len)
              \<noteq> length (payload_bytes (build frame_type seq None payload_len)))"
proof -
  have "length (build frame_type seq None payload_len) = 6"
    by (simp add: build_None)
  then show ?thesis
    by (simp add: length_field_build payload_bytes_build_None)
qed

text \<open>
  The call \<^verbatim>\<open>build(0x22, 0x1C, nullptr, 5)\<close> returns \<^verbatim>\<open>A5 22 1C 05 00 E8\<close>: a length
  field of 5 and no payload byte.
\<close>

theorem build_null_payload_witness:
  "(0::nat) < 5
   \<and> build 0x22 0x1C None 5 = [0xA5, 0x22, 0x1C, 0x05, 0x00, 0xE8]
   \<and> payload_bytes (build 0x22 0x1C None 5) = []
   \<and> length_field (build 0x22 0x1C None 5) = 5
   \<and> (5::nat) mod 65536 \<noteq> 0
   \<and> length_field (build 0x22 0x1C None 5) \<noteq> length (payload_bytes (build 0x22 0x1C None 5))"
proof -
  have "build 0x22 0x1C None 5 = [0xA5, 0x22, 0x1C, 0x05, 0x00, 0xE8]"
    by (simp add: build_def calculate_checksum_def FRAME_MAGIC_def)
  with build_null_payload [of 5 "0x22" "0x1C"] show ?thesis by simp
qed

section \<open>Chunking\<close>

text \<open>
  Claim C5: for every byte sequence longer than the chunk size, \<open>chunk\<close> returns exactly
  \<open>\<lceil>len / chunk_size\<rceil>\<close> slices, each of at most \<open>chunk_size\<close> bytes, whose
  concatenation in order is the byte sequence itself: no byte is added, dropped or moved.
  The chunk size is \<open>BLE_CHUNK_SIZE\<close>.
\<close>

theorem chunk_pieces:
  assumes "BLE_CHUNK_SIZE < length packet"
  shows "int (length (chunk packet)) = \<lceil>real (length packet) / real BLE_CHUNK_SIZE\<rceil>
       \<and> (\<forall>s \<in> set (chunk packet). length s \<le> BLE_CHUNK_SIZE)
       \<and> concat (chunk packet) = packet"
proof -
  have "int (length (chunk packet)) = \<lceil>real (length packet) / real BLE_CHUNK_SIZE\<rceil>"
    by (simp only: chunk_length ceil20 BLE_CHUNK_SIZE_def of_nat_numeral)
  moreover have "\<forall>s \<in> set (chunk packet). length s \<le> BLE_CHUNK_SIZE"
    using chunk_slices by blast
  ultimately show ?thesis by (simp only: chunk_concat simp_thms)
qed

text \<open>A packet of 25 bytes is cut in two slices, of 20 and of 5 bytes.\<close>

theorem chunk_pieces_witness:
  "BLE_CHUNK_SIZE < length bytes_1_to_25
   \<and> int (length (chunk bytes_1_to_25)) = \<lceil>real (length bytes_1_to_25) / real BLE_CHUNK_SIZE\<rceil>
   \<and> list_all (\<lambda>s. length s \<le> BLE_CHUNK_SIZE) (chunk bytes_1_to_25)
   \<and> concat (chunk bytes_1_to_25) = bytes_1_to_25
   \<and> length (chunk bytes_1_to_25) = 2"
proof -
  have h: "BLE_CHUNK_SIZE < length bytes_1_to_25"
    by (simp add: BLE_CHUNK_SIZE_def bytes_1_to_25_def)
  have "length (chunk bytes_1_to_25) = 2"
    by (simp add: chunk_bytes_1_to_25)
  with h chunk_pieces [OF h] show ?thesis
    unfolding list_all_iff by blast
qed

text \<open>
  Claim C7, as stated: the chunk size is a configuration input, and for every configured
  chunk size \<open>c\<close> the slices of \<open>chunk\<close> have at most \<open>c\<close> bytes. \<open>chunk\<close> takes the
  packet alone; a packet of 20 bytes is one slice of 20 bytes, which is more than a
  configured size of 10.
\<close>

theorem chunk_ignores_configured_size:
  "chunk (replicate 20 0) = [replicate 20 0]
   \<and> \<not> list_all (\<lambda>s. length s \<le> 10) (chunk (replicate 20 0))"
  by (simp add: chunk_def chunk_loop.simps BLE_CHUNK_SIZE_def)

text \<open>
  Claim C7, amended: the chunk size of \<open>chunk\<close> is the compile-time constant
  \<open>BLE_CHUNK_SIZE = 20\<close> (\<open>chunk\<close> has no chunk-size argument), and \<open>chunk\<close> splits
  every input into slices of at most 20 bytes.
\<close>

theorem chunk_size_fixed_20:
  "BLE_CHUNK_SIZE = 20 \<and> list_all (\<lambda>s. length s \<le> 20) (chunk packet)"
  using chunk_slices [of _ packet] by (auto simp: list_all_iff BLE_CHUNK_SIZE_def)

text \<open>
  Claim C10: \<open>chunk\<close> of the empty byte sequence is the empty sequence of slices (not
  one empty slice), and for every non-empty input there is at least one slice and every
  slice is non-empty.
\<close>

theorem chunk_empty_and_slices_nonempty:
  "chunk [] = [] \<and> (packet \<noteq> [] \<longrightarrow> chunk packet \<noteq> [] \<and> (\<forall>s \<in> set (chunk packet). s \<noteq> []))"
proof -
  have "chunk [] = []" by (simp add: chunk_def)
  moreover have "chunk packet \<noteq> []" if "packet \<noteq> []"
    using that chunk_concat [of packet] by auto
  moreover have "\<forall>s \<in> set (chunk packet). s \<noteq> []"
    using chunk_slices by blast
  ultimately show ?thesis by blast
qed

text \<open>The packet of 25 bytes: its slices exist and none is empty.\<close>

theorem chunk_empty_and_slices_nonempty_witness:
  "chunk [] = []
   \<and> bytes_1_to_25 \<noteq> []
   \<and> chunk bytes_1_to_25 \<noteq> []
   \<and> list_all (\<lambda>s. s \<noteq> []) (chunk bytes_1_to_25)"
proof -
  have "bytes_1_to_25 \<noteq> []" by (simp add: bytes_1_to_25_def)
  with chunk_empty_and_slices_nonempty [of bytes_1_to_25] show ?thesis
    unfolding list_all_iff by blast
qed

end
